theory Spec2Isabelle
  imports Main "HOL-Library.Word"
begin

section \<open>Strings and the built-in \<open>trim\<close>\<close>

text \<open>
  A JavaScript string is a sequence of UTF-16 code units. \<open>String.prototype.trim\<close>
  removes the leading and trailing code units that ECMAScript classifies as WhiteSpace
  or LineTerminator.
\<close>

type_synonym jsstring = "16 word list"

definition isWhiteSpace :: "16 word \<Rightarrow> bool" where
  "isWhiteSpace c \<longleftrightarrow>
     c = 0x9 \<or> c = 0xA \<or> c = 0xB \<or> c = 0xC \<or> c = 0xD \<or> c = 0x20 \<or> c = 0xA0 \<or>
     c = 0x1680 \<or> (0x2000 \<le> c \<and> c \<le> 0x200A) \<or> c = 0x2028 \<or> c = 0x2029 \<or>
     c = 0x202F \<or> c = 0x205F \<or> c = 0x3000 \<or> c = 0xFEFF"

definition trim :: "jsstring \<Rightarrow> jsstring" where
  "trim s = rev (dropWhile isWhiteSpace (rev (dropWhile isWhiteSpace s)))"

section \<open>The phrase queue: class \<open>TTSQueue\<close>\<close>

text \<open>
  The three private fields of the class. The field \<open>timeout\<close> holds the handle of the
  pending \<open>setTimeout\<close> callback or \<open>null\<close>; the model keeps the earliest instant (in
  milliseconds) at which that callback may run.
\<close>

record TTSQueue =
  queue :: "jsstring list"
  buffer :: jsstring
  timeout :: "nat option"

definition TTSQueue_new :: TTSQueue where
  "TTSQueue_new = \<lparr>queue = [], buffer = [], timeout = None\<rparr>"

text \<open>\<open>add\<close>: append to the buffer, cancel the pending timer and arm a new one 200 ms ahead.\<close>

definition TTSQueue_add :: "nat \<Rightarrow> jsstring \<Rightarrow> TTSQueue \<Rightarrow> TTSQueue" where
  "TTSQueue_add now text q = q\<lparr>buffer := buffer q @ text, timeout := Some (now + 200)\<rparr>"

text \<open>
  \<open>flush\<close>: a buffer whose trimmed content is a non-empty string is pushed, trimmed, and
  reset; otherwise the buffer is left as it is. The timer is cancelled in both cases.
\<close>

definition TTSQueue_flush :: "TTSQueue \<Rightarrow> TTSQueue" where
  "TTSQueue_flush q =
     (let q1 = (if trim (buffer q) \<noteq> []
                then q\<lparr>queue := queue q @ [trim (buffer q)], buffer := []\<rparr>
                else q)
      in q1\<lparr>timeout := None\<rparr>)"

text \<open>
  \<open>next\<close> is \<open>this.queue.shift() || null\<close>: the head is removed, and a head that is the
  empty string is falsy and so reported as \<open>null\<close>.
\<close>

definition TTSQueue_next :: "TTSQueue \<Rightarrow> jsstring option \<times> TTSQueue" where
  "TTSQueue_next q =
     (case queue q of
        [] \<Rightarrow> (None, q)
      | x # xs \<Rightarrow> (if x = [] then None else Some x, q\<lparr>queue := xs\<rparr>))"

definition TTSQueue_isEmpty :: "TTSQueue \<Rightarrow> bool" where
  "TTSQueue_isEmpty q \<longleftrightarrow> length (queue q) = 0"

definition TTSQueue_size :: "TTSQueue \<Rightarrow> nat" where
  "TTSQueue_size q = length (queue q)"

definition TTSQueue_clear :: "TTSQueue \<Rightarrow> TTSQueue" where
  "TTSQueue_clear q = (TTSQueue_flush q)\<lparr>queue := []\<rparr>"

text \<open>
  The callback registered by \<open>add\<close> is \<open>() => this.flush()\<close>. The event loop runs it
  only while the timer is still armed and not before its delay has elapsed.
\<close>

definition flush_timer :: "nat \<Rightarrow> TTSQueue \<Rightarrow> TTSQueue" where
  "flush_timer now q =
     (case timeout q of
        None \<Rightarrow> q
      | Some due \<Rightarrow> if due \<le> now then TTSQueue_flush q else q)"

text \<open>
  A burst of \<open>add\<close> calls: each entry gives the time elapsed since the previous call and
  the text added. Before each call the event loop has had the chance to run a timer
  that was due.
\<close>

fun add_burst :: "nat \<Rightarrow> (nat \<times> jsstring) list \<Rightarrow> TTSQueue \<Rightarrow> nat \<times> TTSQueue" where
  "add_burst now [] q = (now, q)"
| "add_burst now ((gap, text) # rest) q =
     add_burst (now + gap) rest (TTSQueue_add (now + gap) text (flush_timer (now + gap) q))"

section \<open>Module state of the server\<close>

text \<open>
  A registered consumer is the object \<open>{ ws, id }\<close>. A socket is an opaque handle,
  named by a number; the field \<open>id\<close> is called \<open>ident\<close> here. The registry is a
  JavaScript \<open>Set\<close> of such objects, which iterates in insertion order: a list.
\<close>

record WebSocketClient =
  ws :: nat
  ident :: string

text \<open>
  The handle returned by \<open>spawn\<close>: the model numbers the spawned processes and records
  whether the handle carries a \<open>stdin\<close> stream.
\<close>

record ChildProcess =
  pid :: nat
  stdin :: bool

text \<open>
  What goes over a socket: the JSON texts built with \<open>JSON.stringify\<close>, kept as
  their structure, and the binary buffers read from the worker. The \<open>connected\<close>
  message also carries the constant greeting and audio format, which are left out.
\<close>

datatype payload =
    Connected string
  | TextChunk jsstring
  | TextComplete
  | ErrorMessage string
  | Pcm "8 word list"

text \<open>
  The module-level variables (\<open>ttsQueue\<close>, \<open>clients\<close>, \<open>ttsProcess\<close>, \<open>restarts\<close>),
  the local \<open>counter\<close> of the feed loop, the state of the event loop (the clock in
  milliseconds, the pending \<open>setTimeout\<close> callbacks that start a worker, the instant
  at which the feed loop wakes up, the message handlers suspended in their
  \<open>for await\<close> loop), and the environment: how many workers were spawned, which
  sockets and which worker pipes throw on a write, and the record of everything
  that a socket or a worker's standard input accepted.
\<close>

record server =
  ttsQueue :: TTSQueue
  clients :: "WebSocketClient list"
  ttsProcess :: "ChildProcess option"
  restarts :: nat
  counter :: nat
  now :: nat
  start_timers :: "nat list"
  feed_due :: nat
  handlers :: "nat list"
  spawned :: nat
  broken_ws :: "nat set"
  broken_pipe :: "nat set"
  outbox :: "(nat \<times> payload) list"
  stdin_log :: "(nat \<times> jsstring) list"

text \<open>\<open>ws.send(data)\<close> and \<open>stdin.write(line)\<close>: \<open>None\<close> when the call throws.\<close>

definition ws_send :: "nat \<Rightarrow> payload \<Rightarrow> server \<Rightarrow> server option" where
  "ws_send w d s =
     (if w \<in> broken_ws s then None else Some (s\<lparr>outbox := outbox s @ [(w, d)]\<rparr>))"

definition stdin_write :: "nat \<Rightarrow> jsstring \<Rightarrow> server \<Rightarrow> server option" where
  "stdin_write p line s =
     (if p \<in> broken_pipe s then None else Some (s\<lparr>stdin_log := stdin_log s @ [(p, line)]\<rparr>))"

section \<open>\<open>broadcast\<close>\<close>

text \<open>
  \<open>clients.forEach\<close> with the \<open>try\<close>/\<open>catch\<close> of the source: a client whose send
  throws is kept only when an \<open>onError\<close> callback is given and returns a truthy value
  (\<open>onError?.(client) || clients.delete(client)\<close>). The loop returns the clients
  that stay in the set.
\<close>

fun forEach_send ::
  "payload \<Rightarrow> (WebSocketClient \<Rightarrow> bool) option \<Rightarrow> WebSocketClient list \<Rightarrow> server
     \<Rightarrow> WebSocketClient list \<times> server" where
  "forEach_send d onError [] s = ([], s)"
| "forEach_send d onError (c # cs) s =
     (case ws_send (ws c) d s of
        Some s1 \<Rightarrow>
          (let (kept, s2) = forEach_send d onError cs s1 in (c # kept, s2))
      | None \<Rightarrow>
          (let (kept, s2) = forEach_send d onError cs s in
             (if (case onError of None \<Rightarrow> False | Some f \<Rightarrow> f c) then c # kept else kept, s2)))"

definition broadcast ::
  "payload \<Rightarrow> (WebSocketClient \<Rightarrow> bool) option \<Rightarrow> server \<Rightarrow> server" where
  "broadcast d onError s =
     (let (kept, s1) = forEach_send d onError (clients s) s in s1\<lparr>clients := kept\<rparr>)"

section \<open>Supervision of the synthesis worker\<close>

text \<open>
  \<open>startTTS\<close> spawns a worker and attaches the listeners below to it (the one on
  \<open>stderr\<close> only logs). The argument says whether the spawned handle has a \<open>stdin\<close>
  stream.
\<close>

definition startTTS :: "bool \<Rightarrow> server \<Rightarrow> ChildProcess \<times> server" where
  "startTTS piped s = (\<lparr>pid = spawned s, stdin = piped\<rparr>, s\<lparr>spawned := Suc (spawned s)\<rparr>)"

text \<open>
  \<open>restartTTS\<close>: \<open>restarts++ < 5\<close> compares the old value and increments in both
  branches.
\<close>

definition restartTTS :: "server \<Rightarrow> server" where
  "restartTTS s =
     (let r = restarts s; s1 = s\<lparr>restarts := r + 1\<rparr>
      in if r < 5
         then s1\<lparr>start_timers := start_timers s1 @ [now s1 + 1000]\<rparr>
         else broadcast (ErrorMessage ''TTS unavailable'') None s1)"

text \<open>
  The callback \<open>() => { ttsProcess = startTTS(); }\<close> of the oldest pending restart
  timer; it cannot run before its second has elapsed.
\<close>

definition start_timer :: "bool \<Rightarrow> server \<Rightarrow> server" where
  "start_timer piped s =
     (case start_timers s of
        [] \<Rightarrow> s
      | due # rest \<Rightarrow>
          if due \<le> now s
          then (let (p, s1) = startTTS piped (s\<lparr>start_timers := rest\<rparr>)
                in s1\<lparr>ttsProcess := Some p\<rparr>)
          else s)"

text \<open>The listeners: \<open>stdout\<close> data, \<open>error\<close>, and \<open>exit\<close> with its code or \<open>null\<close>.\<close>

definition on_stdout_data :: "8 word list \<Rightarrow> server \<Rightarrow> server" where
  "on_stdout_data pcm s = broadcast (Pcm pcm) None s"

definition on_error :: "server \<Rightarrow> server" where
  "on_error s = restartTTS s"

definition on_exit :: "int option \<Rightarrow> server \<Rightarrow> server" where
  "on_exit code s = (if code \<noteq> None \<and> code \<noteq> Some 0 then restartTTS s else s)"

section \<open>The feed loop\<close>

text \<open>
  One iteration of the \<open>while (true)\<close> loop, up to and including the
  \<open>setTimeout(r, 50)\<close> on which it suspends. The counter only drives a log line.
\<close>

definition feed_iteration :: "server \<Rightarrow> server" where
  "feed_iteration s =
     (let s1 =
        (case ttsProcess s of
           None \<Rightarrow> s
         | Some p \<Rightarrow>
             if \<not> TTSQueue_isEmpty (ttsQueue s) \<and> stdin p
             then (let (text, q) = TTSQueue_next (ttsQueue s); s0 = s\<lparr>ttsQueue := q\<rparr>
                   in case text of
                        None \<Rightarrow> s0
                      | Some t \<Rightarrow>
                          (case stdin_write (pid p) (t @ [0xA]) s0 of
                             Some s' \<Rightarrow> s'
                           | None \<Rightarrow> restartTTS s0))
             else s);
        n = counter s1 + 1
      in s1\<lparr>counter := (if n \<ge> 200 then 0 else n), feed_due := now s1 + 50\<rparr>)"

definition feed_tick :: "server \<Rightarrow> server" where
  "feed_tick s = (if feed_due s \<le> now s then feed_iteration s else s)"

section \<open>The WebSocket handlers\<close>

text \<open>
  \<open>open\<close>: the identifier is \<open>Math.random().toString(36).substring(7)\<close>; the
  argument \<open>rnd\<close> is the base-36 text of the random draw. The client is added before
  the greeting is sent.
\<close>

definition open_ws :: "nat \<Rightarrow> string \<Rightarrow> server \<Rightarrow> server" where
  "open_ws w rnd s =
     (let i = drop 7 rnd; s1 = s\<lparr>clients := clients s @ [\<lparr>ws = w, ident = i\<rparr>]\<rparr>
      in case ws_send w (Connected i) s1 of None \<Rightarrow> s1 | Some s2 \<Rightarrow> s2)"

text \<open>\<open>close\<close>: the first client with this socket, if any, is deleted.\<close>

definition close_ws :: "nat \<Rightarrow> server \<Rightarrow> server" where
  "close_ws w s =
     (case find (\<lambda>c. ws c = w) (clients s) of
        None \<Rightarrow> s
      | Some c \<Rightarrow> s\<lparr>clients := remove1 c (clients s)\<rparr>)"

text \<open>
  The inbound message after \<open>JSON.parse\<close>: either the parse (or the property access
  on \<open>null\<close>) throws, or the fields \<open>type\<close> and \<open>prompt\<close> are read, \<open>Undefined\<close> when
  absent. Numbers are kept as integers: only their truthiness is used.
\<close>

datatype jsvalue = Undefined | Null | Boolean bool | Number int | String jsstring | Object

datatype inbound = Unparsable | Parsed jsvalue jsvalue

fun truthy :: "jsvalue \<Rightarrow> bool" where
  "truthy Undefined = False"
| "truthy Null = False"
| "truthy (Boolean b) = b"
| "truthy (Number n) = (n \<noteq> 0)"
| "truthy (String t) = (t \<noteq> [])"
| "truthy Object = True"

definition chat :: jsstring where
  "chat = [0x63, 0x68, 0x61, 0x74]"

text \<open>
  The \<open>catch\<close> block of \<open>message\<close>. When its own send throws, the handler's promise is
  rejected and nothing else happens.
\<close>

definition handler_catch :: "nat \<Rightarrow> server \<Rightarrow> server" where
  "handler_catch w s =
     (case ws_send w (ErrorMessage ''Failed to process'') s of None \<Rightarrow> s | Some s1 \<Rightarrow> s1)"

text \<open>
  \<open>message\<close> is asynchronous; it is modelled in the pieces between its suspension
  points. First the part up to the first \<open>await\<close>: a valid chat request clears the
  queue and suspends on the text stream.
\<close>

definition message :: "nat \<Rightarrow> inbound \<Rightarrow> server \<Rightarrow> server" where
  "message w m s =
     (case m of
        Unparsable \<Rightarrow> handler_catch w s
      | Parsed ty pr \<Rightarrow>
          if ty = String chat \<and> truthy pr
          then s\<lparr>ttsQueue := TTSQueue_clear (ttsQueue s), handlers := handlers s @ [w]\<rparr>
          else (case ws_send w (ErrorMessage ''Invalid format'') s of
                  None \<Rightarrow> handler_catch w s
                | Some s1 \<Rightarrow> s1))"

text \<open>
  The body of the \<open>for await\<close> loop, for one text increment of the stream. Only a
  handler that is suspended on its stream receives an increment; a handler whose send
  threw has left the loop through the \<open>catch\<close> block.
\<close>

definition text_part :: "nat \<Rightarrow> jsstring \<Rightarrow> server \<Rightarrow> server" where
  "text_part w text s =
     (if w \<notin> set (handlers s) then s
      else case ws_send w (TextChunk text) s of
             None \<Rightarrow> handler_catch w (s\<lparr>handlers := remove1 w (handlers s)\<rparr>)
           | Some s1 \<Rightarrow> s1\<lparr>ttsQueue := TTSQueue_add (now s1) text (ttsQueue s1)\<rparr>)"

text \<open>The code after the loop, when the stream ends.\<close>

definition stream_end :: "nat \<Rightarrow> server \<Rightarrow> server" where
  "stream_end w s =
     (if w \<notin> set (handlers s) then s
      else (let s1 = s\<lparr>handlers := remove1 w (handlers s),
                        ttsQueue := TTSQueue_flush (ttsQueue s)\<rparr>
            in case ws_send w TextComplete s1 of
                 None \<Rightarrow> handler_catch w s1
               | Some s2 \<Rightarrow> s2))"

text \<open>The stream throws: control passes to the \<open>catch\<close> block.\<close>

definition stream_error :: "nat \<Rightarrow> server \<Rightarrow> server" where
  "stream_error w s =
     (if w \<notin> set (handlers s) then s
      else handler_catch w (s\<lparr>handlers := remove1 w (handlers s)\<rparr>))"

section \<open>Runs of the server\<close>

text \<open>
  Everything that can happen to the running server: time passes, a timer or the feed
  loop is scheduled, a socket is opened or closed or delivers a message, the text
  stream of a pending request moves on, the worker writes audio, fails or exits, and
  a socket or a worker pipe starts to throw.
\<close>

datatype event =
    Wait nat
  | FlushTimer
  | StartTimer bool
  | FeedTick
  | Open nat string
  | Close nat
  | Message nat inbound
  | TextPart nat jsstring
  | StreamEnd nat
  | StreamError nat
  | WorkerStdout "8 word list"
  | WorkerError
  | WorkerExit "int option"
  | SocketBreaks nat
  | PipeBreaks nat

fun step :: "event \<Rightarrow> server \<Rightarrow> server" where
  "step (Wait d) s = s\<lparr>now := now s + d\<rparr>"
| "step FlushTimer s = s\<lparr>ttsQueue := flush_timer (now s) (ttsQueue s)\<rparr>"
| "step (StartTimer piped) s = start_timer piped s"
| "step FeedTick s = feed_tick s"
| "step (Open w rnd) s = open_ws w rnd s"
| "step (Close w) s = close_ws w s"
| "step (Message w m) s = message w m s"
| "step (TextPart w t) s = text_part w t s"
| "step (StreamEnd w) s = stream_end w s"
| "step (StreamError w) s = stream_error w s"
| "step (WorkerStdout pcm) s = on_stdout_data pcm s"
| "step WorkerError s = on_error s"
| "step (WorkerExit code) s = on_exit code s"
| "step (SocketBreaks w) s = s\<lparr>broken_ws := insert w (broken_ws s)\<rparr>"
| "step (PipeBreaks p) s = s\<lparr>broken_pipe := insert p (broken_pipe s)\<rparr>"

fun run :: "event list \<Rightarrow> server \<Rightarrow> server" where
  "run [] s = s"
| "run (e # es) s = run es (step e s)"

text \<open>
  The state once the module has been evaluated: the first worker is spawned, the
  server listens, and the feed loop has run its first iteration and sleeps.
\<close>

definition blank :: server where
  "blank = \<lparr>ttsQueue = TTSQueue_new, clients = [], ttsProcess = None, restarts = 0,
            counter = 0, now = 0, start_timers = [], feed_due = 0, handlers = [],
            spawned = 0, broken_ws = {}, broken_pipe = {}, outbox = [], stdin_log = []\<rparr>"

definition init :: "bool \<Rightarrow> server" where
  "init piped =
     (let (p, s) = startTTS piped blank in feed_iteration (s\<lparr>ttsProcess := Some p\<rparr>))"

section \<open>Notions used in the statements\<close>



text \<open>
  Two queues that agree except that the buffer of the first starts with additional
  white space, and two servers that agree except for such queues.
\<close>

definition same_but_blank :: "TTSQueue \<Rightarrow> TTSQueue \<Rightarrow> bool" where
  "same_but_blank q q' \<longleftrightarrow>
     queue q = queue q' \<and> timeout q = timeout q' \<and>
     (\<exists>b. trim b = [] \<and> buffer q = b @ buffer q')"

definition same_but_blank_server :: "server \<Rightarrow> server \<Rightarrow> bool" where
  "same_but_blank_server s s' \<longleftrightarrow>
     same_but_blank (ttsQueue s) (ttsQueue s') \<and> s = s'\<lparr>ttsQueue := ttsQueue s\<rparr>"

text \<open>
  Texts used in the examples: \<open>"Hi "\<close>, \<open>"there"\<close> and \<open>"Hi there"\<close>, and a valid chat
  request.
\<close>

definition txt_Hi :: jsstring where
  "txt_Hi = [0x48, 0x69, 0x20]"

definition txt_there :: jsstring where
  "txt_there = [0x74, 0x68, 0x65, 0x72, 0x65]"

definition txt_Hi_there :: jsstring where
  "txt_Hi_there = [0x48, 0x69, 0x20, 0x74, 0x68, 0x65, 0x72, 0x65]"

definition chat_request :: inbound where
  "chat_request = Parsed (String chat) (String txt_Hi)"



section \<open>Properties of \<open>trim\<close>\<close>

lemma dropWhile_all_iff: "(\<forall>x \<in> set (dropWhile P xs). P x) \<longleftrightarrow> (\<forall>x \<in> set xs. P x)"
  by (induction xs) auto

lemma trim_Nil_iff: "trim s = [] \<longleftrightarrow> (\<forall>c \<in> set s. isWhiteSpace c)"
  by (simp add: trim_def dropWhile_eq_Nil_conv dropWhile_all_iff)

lemma trim_append_blank:
  assumes "trim b = []"
  shows "trim (b @ s) = trim s"
proof -
  from assms have "\<forall>c \<in> set b. isWhiteSpace c"
    by (simp add: trim_Nil_iff)
  then have "dropWhile isWhiteSpace (b @ s) = dropWhile isWhiteSpace s"
    by simp
  then show ?thesis
    by (simp add: trim_def)
qed


section \<open>The quiet period\<close>

lemma flush_timer_blank:
  "trim (buffer q) = [] \<Longrightarrow>
     queue (flush_timer t q) = queue q \<and> buffer (flush_timer t q) = buffer q"
  by (simp add: flush_timer_def TTSQueue_flush_def split: option.splits)

lemma add_burst_armed:
  assumes "\<forall>(gap, text) \<in> set burst. gap < 200" and "timeout q = Some (t0 + 200)"
  shows "add_burst t0 burst q =
           (t0 + sum_list (map fst burst),
            q\<lparr>buffer := buffer q @ concat (map snd burst),
              timeout := Some (t0 + sum_list (map fst burst) + 200)\<rparr>)"
  using assms
proof (induction burst arbitrary: t0 q)
  case Nil
  then show ?case by simp
next
  case (Cons a burst)
  obtain g tx where a: "a = (g, tx)" by (cases a)
  from Cons.prems a have gap: "g < 200" by simp
  with Cons.prems have idle: "flush_timer (t0 + g) q = q"
    by (simp add: flush_timer_def)
  from Cons.prems a have rest: "\<forall>(gap, text) \<in> set burst. gap < 200" by simp
  have armed: "timeout (TTSQueue_add (t0 + g) tx q) = Some (t0 + g + 200)"
    by (simp add: TTSQueue_add_def)
  show ?case
    using Cons.IH [OF rest armed] a idle
    by (simp add: TTSQueue_add_def add.assoc)
qed

lemma add_burst_quiet:
  assumes "trim (buffer q) = []" and "\<forall>(gap, text) \<in> set (tl burst). gap < 200"
    and "burst \<noteq> []"
  shows "add_burst t0 burst q =
           (t0 + sum_list (map fst burst),
            q\<lparr>buffer := buffer q @ concat (map snd burst),
              timeout := Some (t0 + sum_list (map fst burst) + 200)\<rparr>)"
proof -
  from assms(3) obtain g tx rest where b: "burst = (g, tx) # rest"
    by (cases burst) auto
  let ?q0 = "flush_timer (t0 + g) q"
  let ?q1 = "TTSQueue_add (t0 + g) tx ?q0"
  have q0: "queue ?q0 = queue q" "buffer ?q0 = buffer q"
    using flush_timer_blank [OF assms(1)] by simp_all
  have armed: "timeout ?q1 = Some (t0 + g + 200)"
    by (simp add: TTSQueue_add_def)
  from assms(2) b have rest: "\<forall>(gap, text) \<in> set rest. gap < 200" by simp
  have "?q1 = q\<lparr>buffer := buffer q @ tx, timeout := Some (t0 + g + 200)\<rparr>"
    using q0
    by (simp add: TTSQueue_add_def flush_timer_def TTSQueue_flush_def assms(1)
        split: option.splits)
  then show ?thesis
    using add_burst_armed [OF rest armed] b by (simp add: add.assoc)
qed

lemma flush_queue_blank_prefix:
  assumes "trim b = []"
  shows "queue (TTSQueue_flush (q\<lparr>buffer := b @ x, timeout := tm\<rparr>)) =
           queue q @ (if trim x = [] then [] else [trim x])"
  using trim_append_blank [OF assms, of x] by (simp add: TTSQueue_flush_def)

lemma burst_phrase:
  assumes "trim (buffer q) = []" and "\<forall>(gap, text) \<in> set (tl burst). gap < 200"
    and "add_burst t0 burst q = (t1, q1)"
  shows "queue q1 = queue q"
    and "queue (TTSQueue_flush q1) =
           queue q @ (if trim (concat (map snd burst)) = [] then []
                      else [trim (concat (map snd burst))])"
    and "queue (flush_timer (t1 + 200) q1) = queue (TTSQueue_flush q1)"
    and "burst \<noteq> [] \<Longrightarrow> d < 200 \<Longrightarrow> flush_timer (t1 + d) q1 = q1"
proof -
  show "queue q1 = queue q"
  proof (cases "burst = []")
    case True
    with assms(3) show ?thesis by simp
  next
    case False
    from add_burst_quiet [OF assms(1,2) False, of t0] assms(3) show ?thesis by auto
  qed
  show "queue (TTSQueue_flush q1) =
           queue q @ (if trim (concat (map snd burst)) = [] then []
                      else [trim (concat (map snd burst))])"
  proof (cases "burst = []")
    case True
    with assms(1,3) show ?thesis by (simp add: TTSQueue_flush_def trim_def)
  next
    case False
    from add_burst_quiet [OF assms(1,2) False, of t0] assms(3)
    have "q1 = q\<lparr>buffer := buffer q @ concat (map snd burst),
                   timeout := Some (t0 + sum_list (map fst burst) + 200)\<rparr>"
      by simp
    then show ?thesis
      using flush_queue_blank_prefix [OF assms(1)] by simp
  qed
  show "queue (flush_timer (t1 + 200) q1) = queue (TTSQueue_flush q1)"
  proof (cases "burst = []")
    case True
    with assms(1,3) show ?thesis
      using flush_timer_blank [OF assms(1)] by (simp add: TTSQueue_flush_def)
  next
    case False
    from add_burst_quiet [OF assms(1,2) False, of t0] assms(3) show ?thesis
      by (auto simp: flush_timer_def)
  qed
  show "flush_timer (t1 + d) q1 = q1" if "burst \<noteq> []" and "d < 200"
    using add_burst_quiet [OF assms(1,2) that(1), of t0] assms(3) that(2)
    by (auto simp: flush_timer_def)
qed


lemma trim_Hi_there: "trim (txt_Hi @ txt_there) = txt_Hi_there"
  by (simp add: trim_def txt_Hi_def txt_there_def txt_Hi_there_def isWhiteSpace_def)

lemma flush_idem:
  "TTSQueue_flush (TTSQueue_flush q) = TTSQueue_flush q"
  "flush_timer t (TTSQueue_flush q) = TTSQueue_flush q"
  by (simp_all add: TTSQueue_flush_def flush_timer_def trim_def)

lemma burst_flush_state:
  assumes "trim (buffer q) = []" and "\<forall>(gap, text) \<in> set (tl burst). gap < 200"
    and "add_burst t0 burst q = (t1, q1)"
  shows "TTSQueue_flush q1 =
           (if trim (concat (map snd burst)) = []
            then q\<lparr>buffer := buffer q @ concat (map snd burst), timeout := None\<rparr>
            else q\<lparr>queue := queue q @ [trim (concat (map snd burst))], buffer := [],
                   timeout := None\<rparr>)"
    and "burst \<noteq> [] \<Longrightarrow> 200 \<le> d \<Longrightarrow> flush_timer (t1 + d) q1 = TTSQueue_flush q1"
proof -
  show "TTSQueue_flush q1 =
           (if trim (concat (map snd burst)) = []
            then q\<lparr>buffer := buffer q @ concat (map snd burst), timeout := None\<rparr>
            else q\<lparr>queue := queue q @ [trim (concat (map snd burst))], buffer := [],
                   timeout := None\<rparr>)"
  proof (cases "burst = []")
    case True
    with assms(1,3) show ?thesis
      by (simp add: TTSQueue_flush_def trim_def)
  next
    case False
    from add_burst_quiet [OF assms(1,2) False, of t0] assms(3)
    have "q1 = q\<lparr>buffer := buffer q @ concat (map snd burst),
                   timeout := Some (t0 + sum_list (map fst burst) + 200)\<rparr>"
      by simp
    then show ?thesis
      using trim_append_blank [OF assms(1), of "concat (map snd burst)"]
      by (simp add: TTSQueue_flush_def)
  qed
  show "flush_timer (t1 + d) q1 = TTSQueue_flush q1" if "burst \<noteq> []" and "200 \<le> d"
    using add_burst_quiet [OF assms(1,2) that(1), of t0] assms(3) that(2)
    by (auto simp: flush_timer_def)
qed

text \<open>
  Claim C5, as the code has it. Start from a queue whose buffer holds nothing but white
  space (as after any flush) and let a burst of \<open>add\<close> calls follow, each less than
  200 ms after the one before. The burst itself emits nothing, and the timer cannot run
  during or less than 200 ms after it. The explicit flush, and equally the timer once its
  200 ms have passed, then does exactly this: when the trimmed concatenation of the
  added texts is not empty it is appended to the queue as one phrase and the buffer is
  emptied; when it is empty nothing is appended and the buffer keeps the white space and
  the added texts; in both cases the timer is cancelled and everything else stays as it
  was. A second flush, or the timer at any later time, changes nothing more.
\<close>

theorem quiet_burst_one_phrase:
  assumes "trim (buffer q) = []"
    and "\<forall>(gap, text) \<in> set (tl burst). gap < 200"
    and "add_burst t0 burst q = (t1, q1)"
  shows "queue q1 = queue q \<and>
         queue (TTSQueue_flush q1) =
           queue q @ (if trim (concat (map snd burst)) = [] then []
                      else [trim (concat (map snd burst))]) \<and>
         queue (flush_timer (t1 + 200) q1) = queue (TTSQueue_flush q1) \<and>
         (burst \<noteq> [] \<longrightarrow> (\<forall>d < 200. flush_timer (t1 + d) q1 = q1)) \<and>
         TTSQueue_flush q1 =
           (if trim (concat (map snd burst)) = []
            then q\<lparr>buffer := buffer q @ concat (map snd burst), timeout := None\<rparr>
            else q\<lparr>queue := queue q @ [trim (concat (map snd burst))], buffer := [],
                   timeout := None\<rparr>) \<and>
         (burst \<noteq> [] \<longrightarrow> (\<forall>d \<ge> 200. flush_timer (t1 + d) q1 = TTSQueue_flush q1)) \<and>
         TTSQueue_flush (TTSQueue_flush q1) = TTSQueue_flush q1 \<and>
         (\<forall>t. flush_timer t (TTSQueue_flush q1) = TTSQueue_flush q1)"
  using burst_phrase [OF assms] burst_flush_state [OF assms] flush_idem [where q = q1]
  by blast

theorem quiet_burst_one_phrase_witness:
  "trim (buffer TTSQueue_new) = [] \<and>
   TTSQueue_flush (snd (add_burst 0 [(0, txt_Hi), (150, txt_there)] TTSQueue_new)) =
     \<lparr>queue = [txt_Hi_there], buffer = [], timeout = None\<rparr> \<and>
   flush_timer (fst (add_burst 0 [(0, txt_Hi), (150, txt_there)] TTSQueue_new) + 200)
     (snd (add_burst 0 [(0, txt_Hi), (150, txt_there)] TTSQueue_new)) =
     \<lparr>queue = [txt_Hi_there], buffer = [], timeout = None\<rparr> \<and>
   flush_timer (fst (add_burst 0 [(0, txt_Hi), (150, txt_there)] TTSQueue_new) + 199)
     (snd (add_burst 0 [(0, txt_Hi), (150, txt_there)] TTSQueue_new)) =
     snd (add_burst 0 [(0, txt_Hi), (150, txt_there)] TTSQueue_new) \<and>
   TTSQueue_flush (TTSQueue_flush
     (snd (add_burst 0 [(0, txt_Hi), (150, txt_there)] TTSQueue_new))) =
     \<lparr>queue = [txt_Hi_there], buffer = [], timeout = None\<rparr>"
proof -
  define b where "b = [(0::nat, txt_Hi), (150, txt_there)]"
  have blank: "trim (buffer TTSQueue_new) = []"
    by (simp add: TTSQueue_new_def trim_def)
  have near: "\<forall>(gap, text) \<in> set (tl b). gap < 200"
    by (simp add: b_def)
  have run: "add_burst 0 b TTSQueue_new =
               (fst (add_burst 0 b TTSQueue_new), snd (add_burst 0 b TTSQueue_new))"
    by simp
  have phrase: "trim (concat (map snd b)) = txt_Hi_there" "b \<noteq> []"
    using trim_Hi_there by (simp_all add: b_def)
  have full: "txt_Hi_there \<noteq> []"
    by (simp add: txt_Hi_there_def)
  have late: "(200::nat) \<le> 200" and early: "(199::nat) < 200"
    by simp_all
  note t = quiet_burst_one_phrase [OF blank near run]
  from t phrase full
  have flushed: "TTSQueue_flush (snd (add_burst 0 b TTSQueue_new)) =
                   \<lparr>queue = [txt_Hi_there], buffer = [], timeout = None\<rparr>"
    by (simp add: TTSQueue_new_def)
  from t phrase late
  have "flush_timer (fst (add_burst 0 b TTSQueue_new) + 200) (snd (add_burst 0 b TTSQueue_new)) =
          TTSQueue_flush (snd (add_burst 0 b TTSQueue_new))"
    by blast
  moreover from t phrase early
  have "flush_timer (fst (add_burst 0 b TTSQueue_new) + 199) (snd (add_burst 0 b TTSQueue_new)) =
          snd (add_burst 0 b TTSQueue_new)"
    by blast
  moreover from t
  have "TTSQueue_flush (TTSQueue_flush (snd (add_burst 0 b TTSQueue_new))) =
          TTSQueue_flush (snd (add_burst 0 b TTSQueue_new))"
    by blast
  ultimately show ?thesis
    using flushed blank unfolding b_def by simp
qed

text \<open>
  Claim C5 as stated fails: a space and, 100 ms later, a line feed are added to a new
  queue. Neither the explicit flush nor the timer emits a phrase, and the two
  characters stay in the buffer.
\<close>

theorem blank_burst_counterexample:
  "queue (TTSQueue_flush (snd (add_burst 0 [(0, [0x20]), (100, [0xA])] TTSQueue_new))) = [] \<and>
   queue (flush_timer 300 (snd (add_burst 0 [(0, [0x20]), (100, [0xA])] TTSQueue_new))) = [] \<and>
   buffer (TTSQueue_flush (snd (add_burst 0 [(0, [0x20]), (100, [0xA])] TTSQueue_new))) =
     [0x20, 0xA]"
  by (simp add: TTSQueue_flush_def TTSQueue_add_def TTSQueue_new_def flush_timer_def trim_def
      isWhiteSpace_def)


section \<open>Closed forms of the server operations\<close>

lemma forEach_send_eq:
  "forEach_send d h cs s =
     (filter (\<lambda>c. ws c \<notin> broken_ws s \<or> (case h of None \<Rightarrow> False | Some f \<Rightarrow> f c)) cs,
      s\<lparr>outbox := outbox s @ map (\<lambda>c. (ws c, d)) (filter (\<lambda>c. ws c \<notin> broken_ws s) cs)\<rparr>)"
proof (induction cs arbitrary: s)
  case Nil
  show ?case by simp
next
  case (Cons c cs)
  show ?case
  proof (cases "ws c \<in> broken_ws s")
    case True
    then show ?thesis by (simp add: ws_send_def Cons.IH)
  next
    case False
    then show ?thesis by (simp add: ws_send_def Cons.IH)
  qed
qed

lemma broadcast_eq:
  "broadcast d None s =
     s\<lparr>clients := filter (\<lambda>c. ws c \<notin> broken_ws s) (clients s),
       outbox := outbox s @
         map (\<lambda>c. (ws c, d)) (filter (\<lambda>c. ws c \<notin> broken_ws s) (clients s))\<rparr>"
  by (simp add: broadcast_def forEach_send_eq)

lemma restartTTS_eq:
  "restartTTS s =
     (if restarts s < 5
      then s\<lparr>restarts := restarts s + 1, start_timers := start_timers s @ [now s + 1000]\<rparr>
      else s\<lparr>restarts := restarts s + 1,
             clients := filter (\<lambda>c. ws c \<notin> broken_ws s) (clients s),
             outbox := outbox s @ map (\<lambda>c. (ws c, ErrorMessage ''TTS unavailable''))
                         (filter (\<lambda>c. ws c \<notin> broken_ws s) (clients s))\<rparr>)"
  by (simp add: restartTTS_def broadcast_eq Let_def)

lemma handler_catch_eq:
  "handler_catch w s =
     s\<lparr>outbox := outbox s @
         (if w \<in> broken_ws s then [] else [(w, ErrorMessage ''Failed to process'')])\<rparr>"
  by (simp add: handler_catch_def ws_send_def)

lemma init_eq:
  "init piped =
     \<lparr>ttsQueue = TTSQueue_new, clients = [], ttsProcess = Some \<lparr>pid = 0, stdin = piped\<rparr>,
      restarts = 0, counter = 1, now = 0, start_timers = [], feed_due = 50, handlers = [],
      spawned = 1, broken_ws = {}, broken_pipe = {}, outbox = [], stdin_log = []\<rparr>"
  by (simp add: init_def startTTS_def blank_def feed_iteration_def TTSQueue_isEmpty_def
      TTSQueue_new_def)


section \<open>The restart budget\<close>









section \<open>Runs without a restart trigger\<close>





section \<open>Crash cycles in closed form\<close>



section \<open>Claims about the supervisor\<close>








section \<open>Claims about the broadcast\<close>

text \<open>
  Claim C7, as the code has it. Each chunk read from the worker's standard output is
  sent once, unchanged, to every registered consumer whose socket accepts it, in the
  order of registration: a payload is as long as the chunk it carries, whatever that
  length is.
\<close>

theorem stdout_chunk_forwarded_verbatim:
  "outbox (step (WorkerStdout pcm) s) =
     outbox s @ map (\<lambda>c. (ws c, Pcm pcm)) (filter (\<lambda>c. ws c \<notin> broken_ws s) (clients s))"
  by (simp add: on_stdout_data_def broadcast_eq)

theorem stdout_chunk_forwarded_verbatim_witness:
  "outbox (step (WorkerStdout [1, 2, 3, 4])
            (run [Open 1 ''0.4fzyo82mvyr'', Open 2 ''0.9hq1fd3kzxc''] (init True))) =
     [(1, Connected ''82mvyr''), (2, Connected ''d3kzxc''),
      (1, Pcm [1, 2, 3, 4]), (2, Pcm [1, 2, 3, 4])]"
proof -
  have "clients (run [Open 1 ''0.4fzyo82mvyr'', Open 2 ''0.9hq1fd3kzxc''] (init True)) =
          [\<lparr>ws = 1, ident = ''82mvyr''\<rparr>, \<lparr>ws = 2, ident = ''d3kzxc''\<rparr>]"
    "outbox (run [Open 1 ''0.4fzyo82mvyr'', Open 2 ''0.9hq1fd3kzxc''] (init True)) =
          [(1, Connected ''82mvyr''), (2, Connected ''d3kzxc'')]"
    "broken_ws (run [Open 1 ''0.4fzyo82mvyr'', Open 2 ''0.9hq1fd3kzxc''] (init True)) = {}"
    by (simp_all add: init_eq open_ws_def ws_send_def Let_def)
  with stdout_chunk_forwarded_verbatim
         [of "[1, 2, 3, 4]" "run [Open 1 ''0.4fzyo82mvyr'', Open 2 ''0.9hq1fd3kzxc''] (init True)"]
  show ?thesis
    by simp
qed

text \<open>
  Claim C7 as stated fails: the worker's output arrives as a chunk of three bytes, and
  the connected consumer receives a binary payload of three bytes.
\<close>

theorem three_byte_frame_counterexample:
  "(1, Pcm [1, 2, 3]) \<in> set (outbox (run [Open 1 ''0.4fzyo82mvyr'', WorkerStdout [1, 2, 3]]
                                     (init True))) \<and>
   \<not> 4 dvd length [1, 2, 3 :: 8 word]"
proof -
  have "\<not> 4 dvd length [1, 2, 3 :: 8 word]"
    by code_simp
  then show ?thesis
    by (simp add: init_eq open_ws_def ws_send_def Let_def on_stdout_data_def broadcast_eq)
qed

text \<open>
  Claim C8. A broadcast (no \<open>onError\<close> callback is passed anywhere in the server)
  keeps exactly the consumers whose send did not throw and delivers the data to
  exactly those, returning normally. The next broadcast, the sockets being as they
  were, reaches every remaining consumer and nobody else, and removes nobody.
\<close>

theorem broadcast_drops_failed_consumer:
  "clients (broadcast d None s) = filter (\<lambda>c. ws c \<notin> broken_ws s) (clients s) \<and>
   outbox (broadcast d None s) = outbox s @ map (\<lambda>c. (ws c, d)) (clients (broadcast d None s)) \<and>
   broken_ws (broadcast d None s) = broken_ws s \<and>
   clients (broadcast d' None (broadcast d None s)) = clients (broadcast d None s) \<and>
   outbox (broadcast d' None (broadcast d None s)) =
     outbox (broadcast d None s) @ map (\<lambda>c. (ws c, d')) (clients (broadcast d None s))"
  by (simp add: broadcast_eq)

theorem broadcast_drops_failed_consumer_witness:
  "map ws (clients (run [Open 1 ''0.4fzyo82mvyr'', Open 2 ''0.9hq1fd3kzxc'',
                         Open 3 ''0.c7u0x1p5qzb'', SocketBreaks 2] (init True))) = [1, 2, 3] \<and>
   map ws (clients (broadcast TextComplete None
              (run [Open 1 ''0.4fzyo82mvyr'', Open 2 ''0.9hq1fd3kzxc'',
                    Open 3 ''0.c7u0x1p5qzb'', SocketBreaks 2] (init True)))) = [1, 3] \<and>
   drop 3 (outbox (broadcast (Pcm [0, 0, 0, 0]) None (broadcast TextComplete None
              (run [Open 1 ''0.4fzyo82mvyr'', Open 2 ''0.9hq1fd3kzxc'',
                    Open 3 ''0.c7u0x1p5qzb'', SocketBreaks 2] (init True))))) =
     [(1, TextComplete), (3, TextComplete), (1, Pcm [0, 0, 0, 0]), (3, Pcm [0, 0, 0, 0])]"
proof -
  define s where "s = run [Open 1 ''0.4fzyo82mvyr'', Open 2 ''0.9hq1fd3kzxc'',
                           Open 3 ''0.c7u0x1p5qzb'', SocketBreaks 2] (init True)"
  have s: "clients s = [\<lparr>ws = 1, ident = ''82mvyr''\<rparr>, \<lparr>ws = 2, ident = ''d3kzxc''\<rparr>,
                        \<lparr>ws = 3, ident = ''1p5qzb''\<rparr>]"
    "broken_ws s = {2}"
    "outbox s = [(1, Connected ''82mvyr''), (2, Connected ''d3kzxc''),
                 (3, Connected ''1p5qzb'')]"
    by (simp_all add: s_def init_eq open_ws_def ws_send_def Let_def)
  from s broadcast_drops_failed_consumer [of TextComplete s "Pcm [0, 0, 0, 0]"]
  show ?thesis
    unfolding s_def [symmetric] by simp
qed

section \<open>Claims about the registry\<close>

lemma open_ws_clients:
  "clients (open_ws w rnd s) = clients s @ [\<lparr>ws = w, ident = drop 7 rnd\<rparr>]"
  by (simp add: open_ws_def ws_send_def Let_def)

lemma opens_clients:
  "clients (run (map (\<lambda>(w, rnd). Open w rnd) regs) s) =
     clients s @ map (\<lambda>(w, rnd). \<lparr>ws = w, ident = drop 7 rnd\<rparr>) regs"
  by (induction regs arbitrary: s) (auto simp: open_ws_clients)

lemma opens_idents:
  "map ident (clients (run (map (\<lambda>(w, rnd). Open w rnd) regs) s)) =
     map ident (clients s) @ map (\<lambda>(w, rnd). drop 7 rnd) regs"
  by (induction regs arbitrary: s) (auto simp: open_ws_clients)

text \<open>
  Claim C9, as the code has it. The identifier of a consumer is the text of its random
  draw from position 7 on, and nothing compares it with the identifiers in use: after
  any sequence of registrations the identifiers are those of the consumers already
  there followed by these suffixes, so they are pairwise distinct exactly when the
  suffixes are pairwise distinct and differ from the identifiers already there.
\<close>

theorem identifiers_follow_draws:
  "map ident (clients (run (map (\<lambda>(w, rnd). Open w rnd) regs) s)) =
     map ident (clients s) @ map (\<lambda>(w, rnd). drop 7 rnd) regs \<and>
   (distinct (map ident (clients (run (map (\<lambda>(w, rnd). Open w rnd) regs) s))) \<longleftrightarrow>
    distinct (map ident (clients s) @ map (\<lambda>(w, rnd). drop 7 rnd) regs))"
  by (simp add: opens_idents)

theorem identifiers_follow_draws_witness:
  "map ident (clients (run (map (\<lambda>(w, rnd). Open w rnd)
                              [(1, ''0.4fzyo82mvyr''), (2, ''0.9hq1fd3kzxc'')]) (init True))) =
     [''82mvyr'', ''d3kzxc''] \<and>
   distinct (map ident (clients (run (map (\<lambda>(w, rnd). Open w rnd)
                              [(1, ''0.4fzyo82mvyr''), (2, ''0.9hq1fd3kzxc'')]) (init True))))"
  using identifiers_follow_draws [of "[(1, ''0.4fzyo82mvyr''), (2, ''0.9hq1fd3kzxc'')]" "init True"]
  by (simp add: init_eq)

text \<open>
  Claim C9 as stated fails: the draws 0.5 and 0.25 read \<open>0.i\<close> and \<open>0.9\<close> in base 36,
  both shorter than seven characters, and the two consumers, both connected, both get
  the empty identifier.
\<close>

theorem shared_identifier_counterexample:
  "clients (run [Open 1 ''0.i'', Open 2 ''0.9''] (init True)) =
     [\<lparr>ws = 1, ident = []\<rparr>, \<lparr>ws = 2, ident = []\<rparr>] \<and>
   \<not> distinct (map ident (clients (run [Open 1 ''0.i'', Open 2 ''0.9''] (init True))))"
  by (simp add: init_eq open_ws_def ws_send_def Let_def)


section \<open>Claims about the request handler\<close>

lemma text_part_ok:
  assumes "w \<in> set (handlers s)" and "w \<notin> broken_ws s"
  shows "text_part w t s =
           s\<lparr>ttsQueue := TTSQueue_add (now s) t (ttsQueue s),
             outbox := outbox s @ [(w, TextChunk t)]\<rparr>"
  using assms by (simp add: text_part_def ws_send_def)

lemma stream_end_ok:
  assumes "w \<in> set (handlers s)" and "w \<notin> broken_ws s"
  shows "stream_end w s =
           s\<lparr>ttsQueue := TTSQueue_flush (ttsQueue s), handlers := remove1 w (handlers s),
             outbox := outbox s @ [(w, TextComplete)]\<rparr>"
  using assms by (simp add: stream_end_def ws_send_def Let_def)

lemma text_parts_run:
  assumes "w \<in> set (handlers s)" and "w \<notin> broken_ws s"
  shows "outbox (run (map (TextPart w) ts @ es) s) =
           outbox (run es (s\<lparr>ttsQueue := foldl (\<lambda>q t. TTSQueue_add (now s) t q) (ttsQueue s) ts,
                              outbox := outbox s @ map (\<lambda>t. (w, TextChunk t)) ts\<rparr>))"
  using assms
proof (induction ts arbitrary: s)
  case Nil
  then show ?case by simp
next
  case (Cons t ts)
  let ?s1 = "text_part w t s"
  have s1: "?s1 = s\<lparr>ttsQueue := TTSQueue_add (now s) t (ttsQueue s),
                      outbox := outbox s @ [(w, TextChunk t)]\<rparr>"
    using Cons.prems by (rule text_part_ok)
  have "w \<in> set (handlers ?s1)" "w \<notin> broken_ws ?s1"
    using Cons.prems by (simp_all add: s1)
  from Cons.IH [OF this] show ?case
    by (simp add: s1)
qed

text \<open>
  Claim C1, as the code has it. The handler sends each text increment of a pending
  request, and the completion message at the end of the stream, to the socket of the
  requesting consumer and to no other: whatever the registry holds, the sends of a
  whole valid chat request are one \<open>text_chunk\<close> per increment, in order, and one
  \<open>text_complete\<close>, all on the requester's socket.
\<close>

theorem text_events_go_to_requester:
  "(w \<in> set (handlers s) \<and> w \<notin> broken_ws s \<longrightarrow>
      outbox (step (TextPart w t) s) = outbox s @ [(w, TextChunk t)] \<and>
      outbox (step (StreamEnd w) s) = outbox s @ [(w, TextComplete)]) \<and>
   (truthy pr \<and> w \<notin> broken_ws s \<longrightarrow>
      outbox (run (Message w (Parsed (String chat) pr) # map (TextPart w) ts @ [StreamEnd w]) s) =
        outbox s @ map (\<lambda>t. (w, TextChunk t)) ts @ [(w, TextComplete)])"
proof -
  have whole: "outbox (run (Message w (Parsed (String chat) pr) # map (TextPart w) ts @ [StreamEnd w]) s) =
        outbox s @ map (\<lambda>t. (w, TextChunk t)) ts @ [(w, TextComplete)]"
    if "truthy pr" "w \<notin> broken_ws s"
  proof -
    let ?s1 = "message w (Parsed (String chat) pr) s"
    have s1: "?s1 = s\<lparr>ttsQueue := TTSQueue_clear (ttsQueue s), handlers := handlers s @ [w]\<rparr>"
      using that by (simp add: message_def)
    have "w \<in> set (handlers ?s1)" "w \<notin> broken_ws ?s1"
      using that by (simp_all add: s1)
    from text_parts_run [OF this, of ts "[StreamEnd w]"] that show ?thesis
      by (simp add: s1 stream_end_ok)
  qed
  show ?thesis
    using whole by (simp add: text_part_ok stream_end_ok)
qed

theorem text_events_go_to_requester_witness:
  "outbox (run (Message 1 (Parsed (String chat) (String txt_Hi)) #
                map (TextPart 1) [txt_Hi, txt_there] @ [StreamEnd 1])
             (run [Open 1 ''0.4fzyo82mvyr'', Open 2 ''0.9hq1fd3kzxc''] (init True))) =
     [(1, Connected ''82mvyr''), (2, Connected ''d3kzxc''),
      (1, TextChunk txt_Hi), (1, TextChunk txt_there), (1, TextComplete)] \<and>
   outbox (step (TextPart 1 txt_there) (step (Message 1 chat_request) (init True))) =
     [(1, TextChunk txt_there)]"
proof -
  define s where "s = run [Open 1 ''0.4fzyo82mvyr'', Open 2 ''0.9hq1fd3kzxc''] (init True)"
  define s0 where "s0 = step (Message 1 chat_request) (init True)"
  have s: "truthy (String txt_Hi) \<and> 1 \<notin> broken_ws s"
    "outbox s = [(1, Connected ''82mvyr''), (2, Connected ''d3kzxc'')]"
    by (simp_all add: s_def init_eq open_ws_def ws_send_def Let_def txt_Hi_def)
  have s0: "1 \<in> set (handlers s0) \<and> 1 \<notin> broken_ws s0" "outbox s0 = []"
    by (simp_all add: s0_def init_eq message_def chat_request_def txt_Hi_def)
  from s text_events_go_to_requester [of 1 s txt_Hi "String txt_Hi" "[txt_Hi, txt_there]"]
  have a: "outbox (run (Message 1 (Parsed (String chat) (String txt_Hi)) #
                map (TextPart 1) [txt_Hi, txt_there] @ [StreamEnd 1]) s) =
     [(1, Connected ''82mvyr''), (2, Connected ''d3kzxc''),
      (1, TextChunk txt_Hi), (1, TextChunk txt_there), (1, TextComplete)]"
    by (auto simp del: run.simps step.simps)
  from s0 text_events_go_to_requester [of 1 s0 txt_there "String txt_Hi" "[]"]
  have b: "outbox (step (TextPart 1 txt_there) s0) = [(1, TextChunk txt_there)]"
    by (auto simp del: run.simps step.simps)
  from a b show ?thesis
    unfolding s_def s0_def by blast
qed

text \<open>
  Claim C1 as stated fails: consumers 1 and 2 are connected, consumer 1 sends a valid
  chat request whose stream yields one increment and ends. Consumer 2 receives its
  greeting and nothing else.
\<close>

theorem text_not_broadcast_counterexample:
  "map ws (clients (run [Open 1 ''0.4fzyo82mvyr'', Open 2 ''0.9hq1fd3kzxc'',
                         Message 1 chat_request, TextPart 1 txt_Hi, StreamEnd 1] (init True))) =
     [1, 2] \<and>
   outbox (run [Open 1 ''0.4fzyo82mvyr'', Open 2 ''0.9hq1fd3kzxc'',
                Message 1 chat_request, TextPart 1 txt_Hi, StreamEnd 1] (init True)) =
     [(1, Connected ''82mvyr''), (2, Connected ''d3kzxc''),
      (1, TextChunk txt_Hi), (1, TextComplete)] \<and>
   (2, TextChunk txt_Hi) \<notin>
     set (outbox (run [Open 1 ''0.4fzyo82mvyr'', Open 2 ''0.9hq1fd3kzxc'',
                       Message 1 chat_request, TextPart 1 txt_Hi, StreamEnd 1] (init True))) \<and>
   (2, TextComplete) \<notin>
     set (outbox (run [Open 1 ''0.4fzyo82mvyr'', Open 2 ''0.9hq1fd3kzxc'',
                       Message 1 chat_request, TextPart 1 txt_Hi, StreamEnd 1] (init True)))"
  by (simp add: init_eq open_ws_def ws_send_def Let_def message_def chat_request_def chat_def
      txt_Hi_def text_part_def stream_end_def)


section \<open>Claims about the phrase queue across crashes\<close>

lemma feed_iteration_write:
  assumes "ttsProcess s = Some p" and "stdin p" and "queue (ttsQueue s) = x # xs" and "x \<noteq> []"
  shows "queue (ttsQueue (feed_iteration s)) = xs"
    and "buffer (ttsQueue (feed_iteration s)) = buffer (ttsQueue s)"
    and "stdin_log (feed_iteration s) =
           stdin_log s @ (if pid p \<in> broken_pipe s then [] else [(pid p, x @ [0xA])])"
    and "restarts (feed_iteration s) =
           (if pid p \<in> broken_pipe s then restarts s + 1 else restarts s)"
  using assms
  by (simp_all add: feed_iteration_def TTSQueue_isEmpty_def TTSQueue_next_def stdin_write_def
      restartTTS_eq Let_def)

text \<open>
  Claim C3, as the code has it. \<open>restartTTS\<close>, the \<open>error\<close> and \<open>exit\<close> listeners and
  the restart timer leave the phrase queue as it is. The feed loop, whenever the
  current handle has a \<open>stdin\<close>, removes the head of the queue before it writes it,
  newline-terminated, to that handle, and does not put it back: when the write throws
  the phrase is written nowhere and only \<open>restartTTS\<close> is called.
\<close>

theorem crash_keeps_fifo_but_feed_drops:
  "ttsQueue (restartTTS s) = ttsQueue s \<and>
   ttsQueue (step WorkerError s) = ttsQueue s \<and>
   ttsQueue (step (WorkerExit code) s) = ttsQueue s \<and>
   ttsQueue (step (StartTimer piped) s) = ttsQueue s \<and>
   (ttsProcess s = Some p \<and> stdin p \<and> queue (ttsQueue s) = x # xs \<and> x \<noteq> [] \<longrightarrow>
      queue (ttsQueue (feed_iteration s)) = xs \<and>
      buffer (ttsQueue (feed_iteration s)) = buffer (ttsQueue s) \<and>
      stdin_log (feed_iteration s) =
        stdin_log s @ (if pid p \<in> broken_pipe s then [] else [(pid p, x @ [0xA])]) \<and>
      restarts (feed_iteration s) =
        (if pid p \<in> broken_pipe s then restarts s + 1 else restarts s))"
proof -
  have "ttsQueue (restartTTS s) = ttsQueue s"
    by (simp add: restartTTS_eq)
  moreover have "ttsQueue (step (StartTimer piped) s) = ttsQueue s"
    by (simp add: start_timer_def startTTS_def split: list.splits)
  ultimately show ?thesis
    using feed_iteration_write [of s p x xs] by (simp add: on_error_def on_exit_def)
qed

theorem crash_keeps_fifo_but_feed_drops_witness:
  "queue (ttsQueue (feed_iteration
      (run [Message 1 chat_request, TextPart 1 txt_Hi, StreamEnd 1, WorkerExit (Some 1)]
         (init True)))) = [] \<and>
   stdin_log (feed_iteration
      (run [Message 1 chat_request, TextPart 1 txt_Hi, StreamEnd 1, WorkerExit (Some 1)]
         (init True))) = [(0, [0x48, 0x69, 0xA])]"
proof -
  define s where
    "s = run [Message 1 chat_request, TextPart 1 txt_Hi, StreamEnd 1, WorkerExit (Some 1)]
           (init True)"
  have s: "ttsProcess s = Some \<lparr>pid = 0, stdin = True\<rparr> \<and> stdin \<lparr>pid = 0, stdin = True\<rparr> \<and>
           queue (ttsQueue s) = [0x48, 0x69] # [] \<and> [0x48, 0x69 :: 16 word] \<noteq> []"
    "stdin_log s = []" "broken_pipe s = {}"
    unfolding s_def by code_simp+
  from s crash_keeps_fifo_but_feed_drops
           [of s "Some 1" True "\<lparr>pid = 0, stdin = True\<rparr>" "[0x48, 0x69]" "[]"]
  show ?thesis
    unfolding s_def [symmetric] by simp
qed

text \<open>
  Claim C3 as stated fails. A request queues the phrase \<open>Hi\<close>; the worker exits with
  code 1 and its pipe throws from then on. During the backoff the feed loop removes
  the phrase and fails to write it. After both restarts have been granted a worker is
  running, the queue is empty and no worker was ever written to.
\<close>

theorem lost_phrase_counterexample:
  "queue (ttsQueue (run [Message 1 chat_request, TextPart 1 txt_Hi, StreamEnd 1] (init True))) =
     [[0x48, 0x69]] \<and>
   queue (ttsQueue (run [Message 1 chat_request, TextPart 1 txt_Hi, StreamEnd 1,
                         WorkerExit (Some 1), PipeBreaks 0, Wait 50, FeedTick, Wait 1000,
                         StartTimer True, StartTimer True, Wait 50, FeedTick] (init True))) = [] \<and>
   stdin_log (run [Message 1 chat_request, TextPart 1 txt_Hi, StreamEnd 1,
                   WorkerExit (Some 1), PipeBreaks 0, Wait 50, FeedTick, Wait 1000,
                   StartTimer True, StartTimer True, Wait 50, FeedTick] (init True)) = [] \<and>
   ttsProcess (run [Message 1 chat_request, TextPart 1 txt_Hi, StreamEnd 1,
                    WorkerExit (Some 1), PipeBreaks 0, Wait 50, FeedTick, Wait 1000,
                    StartTimer True, StartTimer True, Wait 50, FeedTick] (init True)) =
     Some \<lparr>pid = 2, stdin = True\<rparr>"
  by code_simp

text \<open>
  Claim C4, as the code has it. When the worker exits with a non-zero code while fewer
  than five restarts are used and none is pending, the restart timer is set one second
  ahead and the queue and the worker handle are left as they are. Before the second has
  elapsed the timer spawns nothing; from then on it spawns a new worker, which becomes
  the handle, with the queue unchanged, and the next iteration of the feed loop writes
  the head of the queue to the new worker. An iteration of the feed loop that runs
  during the backoff writes the head of the queue to the handle of the exited worker.
\<close>

theorem crash_restart_after_backoff:
  assumes "restarts s < 5" and "code \<noteq> 0" and "start_timers s = []"
  shows
   "start_timers (step (WorkerExit (Some code)) s) = [now s + 1000] \<and>
    ttsQueue (step (WorkerExit (Some code)) s) = ttsQueue s \<and>
    ttsProcess (step (WorkerExit (Some code)) s) = ttsProcess s \<and>
    (d < 1000 \<longrightarrow>
       spawned (run [WorkerExit (Some code), Wait d, StartTimer piped] s) = spawned s \<and>
       ttsProcess (run [WorkerExit (Some code), Wait d, StartTimer piped] s) = ttsProcess s) \<and>
    (1000 \<le> d \<longrightarrow>
       spawned (run [WorkerExit (Some code), Wait d, StartTimer piped] s) = Suc (spawned s) \<and>
       ttsProcess (run [WorkerExit (Some code), Wait d, StartTimer piped] s) =
         Some \<lparr>pid = spawned s, stdin = piped\<rparr> \<and>
       ttsQueue (run [WorkerExit (Some code), Wait d, StartTimer piped] s) = ttsQueue s) \<and>
    (1000 \<le> d \<and> feed_due s \<le> now s + d \<and> queue (ttsQueue s) = x # xs \<and> x \<noteq> [] \<and>
     spawned s \<notin> broken_pipe s \<longrightarrow>
       stdin_log (run [WorkerExit (Some code), Wait d, StartTimer True, FeedTick] s) =
         stdin_log s @ [(spawned s, x @ [0xA])] \<and>
       queue (ttsQueue (run [WorkerExit (Some code), Wait d, StartTimer True, FeedTick] s)) = xs) \<and>
    (d < 1000 \<and> feed_due s \<le> now s + d \<and> queue (ttsQueue s) = x # xs \<and> x \<noteq> [] \<and>
     ttsProcess s = Some p \<and> stdin p \<and> pid p \<notin> broken_pipe s \<longrightarrow>
       stdin_log (run [WorkerExit (Some code), Wait d, FeedTick] s) =
         stdin_log s @ [(pid p, x @ [0xA])] \<and>
       queue (ttsQueue (run [WorkerExit (Some code), Wait d, FeedTick] s)) = xs)"
proof -
  define s2 where "s2 = step (Wait d) (step (WorkerExit (Some code)) s)"
  have s1: "on_exit (Some code) s =
              s\<lparr>restarts := restarts s + 1, start_timers := [now s + 1000]\<rparr>"
    using assms by (simp add: on_exit_def restartTTS_eq)
  have s2: "s2 = s\<lparr>restarts := restarts s + 1, now := now s + d,
                     start_timers := [now s + 1000]\<rparr>"
    by (simp add: s2_def s1)
  have early: "start_timer b s2 = s2" if "d < 1000" for b
    using that by (simp add: s2 start_timer_def)
  have late: "start_timer b s2 =
      s\<lparr>ttsProcess := Some \<lparr>pid = spawned s, stdin = b\<rparr>, restarts := restarts s + 1,
        now := now s + d, start_timers := [], spawned := Suc (spawned s)\<rparr>"
    if "1000 \<le> d" for b
    using that by (simp add: s2 start_timer_def startTTS_def)
  have fresh: "stdin_log (feed_tick (start_timer True s2)) =
                 stdin_log s @ [(spawned s, x @ [0xA])] \<and>
               queue (ttsQueue (feed_tick (start_timer True s2))) = xs"
    if "1000 \<le> d" "feed_due s \<le> now s + d" "queue (ttsQueue s) = x # xs" "x \<noteq> []"
      "spawned s \<notin> broken_pipe s"
    using that
    by (simp add: late [OF that(1)] feed_tick_def feed_iteration_def TTSQueue_isEmpty_def
        TTSQueue_next_def stdin_write_def Let_def)
  have stale: "stdin_log (feed_tick s2) = stdin_log s @ [(pid p, x @ [0xA])] \<and>
               queue (ttsQueue (feed_tick s2)) = xs"
    if "feed_due s \<le> now s + d" "queue (ttsQueue s) = x # xs" "x \<noteq> []"
      "ttsProcess s = Some p" "stdin p" "pid p \<notin> broken_pipe s"
    using that
    by (simp add: s2 feed_tick_def feed_iteration_def TTSQueue_isEmpty_def
        TTSQueue_next_def stdin_write_def Let_def)
  have a: "start_timers (step (WorkerExit (Some code)) s) = [now s + 1000] \<and>
           ttsQueue (step (WorkerExit (Some code)) s) = ttsQueue s \<and>
           ttsProcess (step (WorkerExit (Some code)) s) = ttsProcess s"
    by (simp add: s1)
  have unfold3: "run [WorkerExit (Some code), Wait d, StartTimer b] s = start_timer b s2"
    "run [WorkerExit (Some code), Wait d, StartTimer b, FeedTick] s =
       feed_tick (start_timer b s2)"
    "run [WorkerExit (Some code), Wait d, FeedTick] s = feed_tick s2" for b
    by (simp_all add: s2_def)
  have b: "d < 1000 \<longrightarrow>
       spawned (run [WorkerExit (Some code), Wait d, StartTimer piped] s) = spawned s \<and>
       ttsProcess (run [WorkerExit (Some code), Wait d, StartTimer piped] s) = ttsProcess s"
    unfolding unfold3 using early [of piped] by (simp add: s2)
  have c: "1000 \<le> d \<longrightarrow>
       spawned (run [WorkerExit (Some code), Wait d, StartTimer piped] s) = Suc (spawned s) \<and>
       ttsProcess (run [WorkerExit (Some code), Wait d, StartTimer piped] s) =
         Some \<lparr>pid = spawned s, stdin = piped\<rparr> \<and>
       ttsQueue (run [WorkerExit (Some code), Wait d, StartTimer piped] s) = ttsQueue s"
    unfolding unfold3 using late [of piped] by simp
  have d: "1000 \<le> d \<and> feed_due s \<le> now s + d \<and> queue (ttsQueue s) = x # xs \<and> x \<noteq> [] \<and>
     spawned s \<notin> broken_pipe s \<longrightarrow>
       stdin_log (run [WorkerExit (Some code), Wait d, StartTimer True, FeedTick] s) =
         stdin_log s @ [(spawned s, x @ [0xA])] \<and>
       queue (ttsQueue (run [WorkerExit (Some code), Wait d, StartTimer True, FeedTick] s)) = xs"
    unfolding unfold3 using fresh by blast
  have e: "d < 1000 \<and> feed_due s \<le> now s + d \<and> queue (ttsQueue s) = x # xs \<and> x \<noteq> [] \<and>
     ttsProcess s = Some p \<and> stdin p \<and> pid p \<notin> broken_pipe s \<longrightarrow>
       stdin_log (run [WorkerExit (Some code), Wait d, FeedTick] s) =
         stdin_log s @ [(pid p, x @ [0xA])] \<and>
       queue (ttsQueue (run [WorkerExit (Some code), Wait d, FeedTick] s)) = xs"
    unfolding unfold3 using stale by blast
  from a b c d e show ?thesis
    by blast
qed

theorem crash_restart_after_backoff_witness:
  "start_timers (step (WorkerExit (Some 1))
      (run [Message 1 chat_request, TextPart 1 txt_Hi, StreamEnd 1] (init True))) = [1000] \<and>
   spawned (run [WorkerExit (Some 1), Wait 999, StartTimer True]
      (run [Message 1 chat_request, TextPart 1 txt_Hi, StreamEnd 1] (init True))) = 1 \<and>
   ttsProcess (run [WorkerExit (Some 1), Wait 1000, StartTimer True]
      (run [Message 1 chat_request, TextPart 1 txt_Hi, StreamEnd 1] (init True))) =
     Some \<lparr>pid = 1, stdin = True\<rparr> \<and>
   stdin_log (run [WorkerExit (Some 1), Wait 1000, StartTimer True, FeedTick]
      (run [Message 1 chat_request, TextPart 1 txt_Hi, StreamEnd 1] (init True))) =
     [(1, [0x48, 0x69, 0xA])] \<and>
   stdin_log (run [WorkerExit (Some 1), Wait 999, FeedTick]
      (run [Message 1 chat_request, TextPart 1 txt_Hi, StreamEnd 1] (init True))) =
     [(0, [0x48, 0x69, 0xA])]"
proof -
  define s where "s = run [Message 1 chat_request, TextPart 1 txt_Hi, StreamEnd 1] (init True)"
  have pre: "restarts s < 5" "(1::int) \<noteq> 0" "start_timers s = []"
    unfolding s_def by code_simp+
  have s: "now s = 0" "spawned s = 1" "feed_due s = 50" "stdin_log s = []"
    "queue (ttsQueue s) = [0x48, 0x69] # []" "[0x48, 0x69 :: 16 word] \<noteq> []"
    "ttsProcess s = Some \<lparr>pid = 0, stdin = True\<rparr>" "broken_pipe s = {}"
    unfolding s_def by code_simp+
  from s crash_restart_after_backoff [OF pre, of 999 True "[0x48, 0x69]" "[]"
      "\<lparr>pid = 0, stdin = True\<rparr>"]
  have early: "spawned (run [WorkerExit (Some 1), Wait 999, StartTimer True] s) = 1 \<and>
      stdin_log (run [WorkerExit (Some 1), Wait 999, FeedTick] s) = [(0, [0x48, 0x69, 0xA])] \<and>
      start_timers (step (WorkerExit (Some 1)) s) = [1000]"
    by (simp del: run.simps step.simps)
  from s crash_restart_after_backoff [OF pre, of 1000 True "[0x48, 0x69]" "[]"
      "\<lparr>pid = 0, stdin = True\<rparr>"]
  have late: "ttsProcess (run [WorkerExit (Some 1), Wait 1000, StartTimer True] s) =
        Some \<lparr>pid = 1, stdin = True\<rparr> \<and>
      stdin_log (run [WorkerExit (Some 1), Wait 1000, StartTimer True, FeedTick] s) =
        [(1, [0x48, 0x69, 0xA])]"
    by (simp del: run.simps step.simps)
  from early late show ?thesis
    unfolding s_def by blast
qed

text \<open>
  Claim C4 as stated fails. The phrase \<open>Hi\<close> is queued when the worker exits with code
  1. The feed loop runs 50 ms later and writes it to the exited worker; the worker spawned
  after the backoff finds the queue empty and is written nothing. And when the worker is
  killed by a signal its exit code is \<open>null\<close>: no worker is spawned after the second.
\<close>

theorem stale_worker_counterexample:
  "queue (ttsQueue (run [Message 1 chat_request, TextPart 1 txt_Hi, StreamEnd 1,
                         WorkerExit (Some 1)] (init True))) = [[0x48, 0x69]] \<and>
   stdin_log (run [Message 1 chat_request, TextPart 1 txt_Hi, StreamEnd 1,
                   WorkerExit (Some 1), Wait 50, FeedTick, Wait 1000, StartTimer True,
                   Wait 50, FeedTick] (init True)) = [(0, [0x48, 0x69, 0xA])] \<and>
   ttsProcess (run [Message 1 chat_request, TextPart 1 txt_Hi, StreamEnd 1,
                    WorkerExit (Some 1), Wait 50, FeedTick, Wait 1000, StartTimer True,
                    Wait 50, FeedTick] (init True)) = Some \<lparr>pid = 1, stdin = True\<rparr> \<and>
   queue (ttsQueue (run [Message 1 chat_request, TextPart 1 txt_Hi, StreamEnd 1,
                         WorkerExit (Some 1), Wait 50, FeedTick, Wait 1000, StartTimer True,
                         Wait 50, FeedTick] (init True))) = [] \<and>
   spawned (run [WorkerExit None, Wait 1000, StartTimer True] (init True)) = 1"
  by code_simp


section \<open>A new request discards what is pending\<close>

lemma sbb_refl: "same_but_blank q q"
  by (auto simp: same_but_blank_def trim_def intro: exI [of _ "[]"])

lemma sbb_queue: "same_but_blank q q' \<Longrightarrow> queue q = queue q'"
  by (simp add: same_but_blank_def)

lemma sbb_timeout: "same_but_blank q q' \<Longrightarrow> timeout q = timeout q'"
  by (simp add: same_but_blank_def)

lemma sbb_isEmpty: "same_but_blank q q' \<Longrightarrow> TTSQueue_isEmpty q = TTSQueue_isEmpty q'"
  by (simp add: same_but_blank_def TTSQueue_isEmpty_def)

lemma sbb_add:
  assumes "same_but_blank q q'"
  shows "same_but_blank (TTSQueue_add t0 x q) (TTSQueue_add t0 x q')"
proof -
  from assms obtain b where "trim b = []" "buffer q = b @ buffer q'"
    by (auto simp: same_but_blank_def)
  then have "trim b = [] \<and> buffer q @ x = b @ buffer q' @ x"
    by simp
  with assms show ?thesis
    unfolding same_but_blank_def TTSQueue_add_def by auto
qed

lemma sbb_flush:
  assumes "same_but_blank q q'"
  shows "same_but_blank (TTSQueue_flush q) (TTSQueue_flush q')"
proof -
  from assms obtain b where b: "trim b = []" "buffer q = b @ buffer q'"
    by (auto simp: same_but_blank_def)
  then have same: "trim (buffer q) = trim (buffer q')"
    by (simp add: trim_append_blank)
  show ?thesis
  proof (cases "trim (buffer q') = []")
    case True
    with same b assms show ?thesis
      unfolding same_but_blank_def TTSQueue_flush_def by auto
  next
    case False
    have "trim [] = ([] :: jsstring)"
      by (simp add: trim_def)
    with False same assms show ?thesis
      unfolding same_but_blank_def TTSQueue_flush_def by auto
  qed
qed

lemma sbb_flush_timer:
  "same_but_blank q q' \<Longrightarrow> same_but_blank (flush_timer t0 q) (flush_timer t0 q')"
  using sbb_timeout [of q q']
  by (auto simp: flush_timer_def sbb_flush split: option.splits)

lemma sbb_clear:
  "same_but_blank q q' \<Longrightarrow> same_but_blank (TTSQueue_clear q) (TTSQueue_clear q')"
  using sbb_flush [of q q'] by (simp add: TTSQueue_clear_def same_but_blank_def)

lemma sbb_next:
  assumes "same_but_blank q q'"
  shows "fst (TTSQueue_next q) = fst (TTSQueue_next q')"
    and "same_but_blank (snd (TTSQueue_next q)) (snd (TTSQueue_next q'))"
  using assms by (auto simp: TTSQueue_next_def same_but_blank_def split: list.splits)


lemma sbbs_intro:
  "same_but_blank q1 (ttsQueue t') \<Longrightarrow> t = t'\<lparr>ttsQueue := q1\<rparr> \<Longrightarrow> same_but_blank_server t t'"
  by (simp add: same_but_blank_server_def)

lemma sbbs_feed:
  assumes "same_but_blank q (ttsQueue s')"
  shows "same_but_blank_server (feed_iteration (s'\<lparr>ttsQueue := q\<rparr>)) (feed_iteration s')"
proof -
  note n = sbb_next [OF assms] and e = sbb_isEmpty [OF assms]
  obtain r q1 where q1: "TTSQueue_next q = (r, q1)"
    by (cases "TTSQueue_next q")
  obtain r' q1' where q1': "TTSQueue_next (ttsQueue s') = (r', q1')"
    by (cases "TTSQueue_next (ttsQueue s')")
  from n q1 q1' have r: "r' = r" and q: "same_but_blank q1 q1'"
    by simp_all
  show ?thesis
    using assms q
    by (auto simp: feed_iteration_def e q1 q1' r stdin_write_def restartTTS_eq Let_def
        same_but_blank_server_def split: option.splits)
qed

lemma sbbs_step:
  assumes "same_but_blank_server s s'"
  shows "same_but_blank_server (step e s) (step e s')"
proof -
  define q where "q = ttsQueue s"
  from assms have q: "same_but_blank q (ttsQueue s')" and s: "s = s'\<lparr>ttsQueue := q\<rparr>"
    by (simp_all add: same_but_blank_server_def q_def)
  note facts = sbb_add [OF q] sbb_flush [OF q] sbb_clear [OF q] sbb_flush_timer [OF q]
  show ?thesis
  proof (cases e)
    case FeedTick
    then show ?thesis
      using sbbs_feed [OF q] assms by (simp add: s feed_tick_def)
  next
    case (Message w m)
    then show ?thesis
      using q facts
      by (auto simp: s same_but_blank_server_def message_def handler_catch_eq ws_send_def
          split: inbound.splits)
  next
    case (TextPart w t)
    then show ?thesis
      using q facts
      by (auto simp: s same_but_blank_server_def text_part_def handler_catch_eq ws_send_def)
  next
    case (StreamEnd w)
    then show ?thesis
      using q facts
      by (auto simp: s same_but_blank_server_def stream_end_def handler_catch_eq ws_send_def
          Let_def)
  next
    case (StartTimer b)
    then show ?thesis
      using q
      by (auto simp: s same_but_blank_server_def start_timer_def startTTS_def
          split: list.splits)
  qed (use q facts in \<open>auto simp: s same_but_blank_server_def open_ws_def close_ws_def
        stream_error_def on_stdout_data_def on_error_def on_exit_def restartTTS_eq
        broadcast_eq handler_catch_eq ws_send_def Let_def split: option.splits\<close>)
qed

lemma sbbs_run:
  "same_but_blank_server s s' \<Longrightarrow> same_but_blank_server (run evs s) (run evs s')"
  by (induction evs arbitrary: s s') (simp_all add: sbbs_step)

lemma sbbs_observe:
  assumes "same_but_blank_server s s'"
  shows "stdin_log s = stdin_log s'" and "outbox s = outbox s'"
    and "queue (ttsQueue s) = queue (ttsQueue s')"
proof -
  from assms have "s = s'\<lparr>ttsQueue := ttsQueue s\<rparr>" and q: "same_but_blank (ttsQueue s) (ttsQueue s')"
    by (simp_all add: same_but_blank_server_def)
  then have "stdin_log s = stdin_log (s'\<lparr>ttsQueue := ttsQueue s\<rparr>)"
    "outbox s = outbox (s'\<lparr>ttsQueue := ttsQueue s\<rparr>)"
    by simp_all
  then show "stdin_log s = stdin_log s'" and "outbox s = outbox s'"
    by simp_all
  from q show "queue (ttsQueue s) = queue (ttsQueue s')"
    by (rule sbb_queue)
qed

lemma clear_blank:
  "queue (TTSQueue_clear q) = [] \<and> timeout (TTSQueue_clear q) = None \<and>
   trim (buffer (TTSQueue_clear q)) = []"
  by (simp add: TTSQueue_clear_def TTSQueue_flush_def trim_def)

text \<open>
  Claim C6. A valid chat request clears the queue before anything else: the queue of
  phrases is empty, the timer is cancelled, and of the buffer nothing is left but white
  space that \<open>flush\<close> declined to emit, all in the one synchronous step that precedes
  the first increment of the new stream. Nothing is written to the worker by that
  step. From then on, whatever happens, the lines written to the worker, the queued
  phrases and the messages sent are those of a server whose queue was replaced by a
  new, empty \<open>TTSQueue\<close>: no text buffered or queued before the request reaches a
  phrase.
\<close>

theorem new_request_discards_pending:
  assumes "truthy pr"
  shows "queue (ttsQueue (step (Message w (Parsed (String chat) pr)) s)) = [] \<and>
    timeout (ttsQueue (step (Message w (Parsed (String chat) pr)) s)) = None \<and>
    trim (buffer (ttsQueue (step (Message w (Parsed (String chat) pr)) s))) = [] \<and>
    stdin_log (step (Message w (Parsed (String chat) pr)) s) = stdin_log s \<and>
    stdin_log (run evs (step (Message w (Parsed (String chat) pr)) s)) =
      stdin_log (run evs ((step (Message w (Parsed (String chat) pr)) s)\<lparr>ttsQueue := TTSQueue_new\<rparr>)) \<and>
    queue (ttsQueue (run evs (step (Message w (Parsed (String chat) pr)) s))) =
      queue (ttsQueue (run evs
        ((step (Message w (Parsed (String chat) pr)) s)\<lparr>ttsQueue := TTSQueue_new\<rparr>))) \<and>
    outbox (run evs (step (Message w (Parsed (String chat) pr)) s)) =
      outbox (run evs ((step (Message w (Parsed (String chat) pr)) s)\<lparr>ttsQueue := TTSQueue_new\<rparr>))"
proof -
  define s1 where "s1 = step (Message w (Parsed (String chat) pr)) s"
  have s1: "s1 = s\<lparr>ttsQueue := TTSQueue_clear (ttsQueue s), handlers := handlers s @ [w]\<rparr>"
    using assms by (simp add: s1_def message_def)
  have cleared: "queue (ttsQueue s1) = [] \<and> timeout (ttsQueue s1) = None \<and>
      trim (buffer (ttsQueue s1)) = []"
    using clear_blank [of "ttsQueue s"] by (simp add: s1)
  then have "same_but_blank (ttsQueue s1) TTSQueue_new"
    by (simp add: same_but_blank_def TTSQueue_new_def)
  then have "same_but_blank_server s1 (s1\<lparr>ttsQueue := TTSQueue_new\<rparr>)"
    by (simp add: same_but_blank_server_def)
  from sbbs_observe [OF sbbs_run [OF this, of evs]] cleared show ?thesis
    unfolding s1_def [symmetric] by (simp add: s1)
qed

theorem new_request_discards_pending_witness:
  "buffer (ttsQueue (run [Message 1 chat_request, TextPart 1 txt_Hi] (init True))) = txt_Hi \<and>
   queue (ttsQueue (step (Message 2 (Parsed (String chat) (String txt_Hi)))
      (run [Message 1 chat_request, TextPart 1 txt_Hi] (init True)))) = [] \<and>
   stdin_log (run [TextPart 2 txt_there, StreamEnd 2, Wait 50, FeedTick]
      (step (Message 2 (Parsed (String chat) (String txt_Hi)))
         (run [Message 1 chat_request, TextPart 1 txt_Hi] (init True)))) =
     [(0, txt_there @ [0xA])]"
proof -
  define s where "s = run [Message 1 chat_request, TextPart 1 txt_Hi] (init True)"
  define s1 where "s1 = step (Message 2 (Parsed (String chat) (String txt_Hi))) s"
  have pr: "truthy (String txt_Hi)"
    by (simp add: txt_Hi_def)
  have old: "buffer (ttsQueue s) = txt_Hi"
    unfolding s_def by code_simp
  have fresh: "stdin_log (run [TextPart 2 txt_there, StreamEnd 2, Wait 50, FeedTick]
                  (s1\<lparr>ttsQueue := TTSQueue_new\<rparr>)) = [(0, txt_there @ [0xA])]"
    unfolding s1_def s_def by code_simp
  from new_request_discards_pending
         [OF pr, of 2 s "[TextPart 2 txt_there, StreamEnd 2, Wait 50, FeedTick]"] fresh old
  show ?thesis
    unfolding s1_def [symmetric] s_def [symmetric] by simp
qed

end
